theory Spec2Isabelle
  imports Complex_Main "HOL-Library.Word" "HOL-Library.AList" "HOL-Library.Log_Nat"
begin

section \<open>The plan model\<close>

text \<open>
  A plan is a map from level names to levels, a level holds a map from domain names to
  domains, a domain holds a map of options and a list of metric names. The Go maps are
  association lists here: the order of the list is the order in which one \<open>range\<close> loop
  visits the entries (Go leaves it unspecified, so a statement about every plan is a
  statement about every order), and a well-formed plan has no key twice. A domain owns its
  option map, as in the data model of the specification.
\<close>

record Domain =
  Name :: string
  Options :: "(string \<times> string) list"
  Metrics :: "string list"

record Level =
  Name :: string
  Freq :: string
  Collect :: "(string \<times> Domain) list"

record Plan =
  Name :: string
  Levels :: "(string \<times> Level) list"
  MonitorId :: string

text \<open>Reading a Go \<open>map[string]string\<close>: a missing key gives the empty string.\<close>

definition str_at :: "(string \<times> string) list \<Rightarrow> string \<Rightarrow> string" where
  "str_at m k = (case map_of m k of None \<Rightarrow> [] | Some v \<Rightarrow> v)"

definition distinct_keys :: "(string \<times> 'a) list \<Rightarrow> bool" where
  "distinct_keys m = distinct (map fst m)"

definition wf_domain :: "Domain \<Rightarrow> bool" where
  "wf_domain d = distinct_keys (Options d)"

definition wf_level :: "Level \<Rightarrow> bool" where
  "wf_level l = (distinct_keys (Collect l) \<and> list_all (\<lambda>(domainName, d). wf_domain d) (Collect l))"

definition wf_plan :: "Plan \<Rightarrow> bool" where
  "wf_plan p = (distinct_keys (Levels p) \<and> list_all (\<lambda>(levelName, l). wf_level l) (Levels p))"

subsection \<open>InterpolateEnvVars and InterpolateMonitor\<close>

text \<open>\<open>p.Levels[levelName].Collect\<close>; a missing level is the zero \<open>Level\<close>, whose map is nil.\<close>

definition collect_at :: "Plan \<Rightarrow> string \<Rightarrow> (string \<times> Domain) list" where
  "collect_at p levelName = (case map_of (Levels p) levelName of None \<Rightarrow> [] | Some l \<Rightarrow> Collect l)"

text \<open>\<open>p.Levels[levelName].Collect[domainName].Options\<close>\<close>

definition options_at :: "Plan \<Rightarrow> string \<Rightarrow> string \<Rightarrow> (string \<times> string) list" where
  "options_at p levelName domainName =
     (case map_of (collect_at p levelName) domainName of None \<Rightarrow> [] | Some d \<Rightarrow> Options d)"

text \<open>The assignment \<open>p.Levels[levelName].Collect[domainName].Options[k] = v\<close>.\<close>

definition set_option :: "string \<Rightarrow> string \<Rightarrow> string \<Rightarrow> string \<Rightarrow> Plan \<Rightarrow> Plan" where
  "set_option levelName domainName k v p =
     p\<lparr>Levels :=
         map (\<lambda>(n, l).
               if n = levelName
               then (n, l\<lparr>Collect :=
                       map (\<lambda>(m, d).
                             if m = domainName
                             then (m, d\<lparr>Options := AList.update k v (Options d)\<rparr>)
                             else (m, d))
                           (Collect l)\<rparr>)
               else (n, l))
             (Levels p)\<rparr>"

text \<open>
  The innermost loop, \<open>for k, v := range ...Options { ...Options[k] = f(v) }\<close>: the keys
  are those of the map when the loop starts, and \<open>v\<close> is the value in the map when the key
  is visited.
\<close>

definition interpolate_options ::
  "(string \<Rightarrow> string) \<Rightarrow> string \<Rightarrow> string \<Rightarrow> Plan \<Rightarrow> Plan" where
  "interpolate_options f levelName domainName p =
     fold (\<lambda>k q. set_option levelName domainName k (f (str_at (options_at q levelName domainName) k)) q)
          (map fst (options_at p levelName domainName)) p"

text \<open>The middle loop, \<open>for domainName := range p.Levels[levelName].Collect\<close>.\<close>

definition interpolate_level :: "(string \<Rightarrow> string) \<Rightarrow> string \<Rightarrow> Plan \<Rightarrow> Plan" where
  "interpolate_level f levelName p =
     fold (\<lambda>domainName q. interpolate_options f levelName domainName q)
          (map fst (collect_at p levelName)) p"

text \<open>
  \<open>InterpolateEnvVars\<close>; \<open>interpolateEnv\<close> is not among the sources and is a parameter.
\<close>

definition InterpolateEnvVars :: "(string \<Rightarrow> string) \<Rightarrow> Plan \<Rightarrow> Plan" where
  "InterpolateEnvVars interpolateEnv p =
     fold (\<lambda>levelName q. interpolate_level interpolateEnv levelName q) (map fst (Levels p)) p"

text \<open>
  \<open>InterpolateMonitor\<close>; the parameter is the method \<open>mon.interpolateMon\<close> of the monitor
  configuration, which is not among the sources.
\<close>

definition InterpolateMonitor :: "(string \<Rightarrow> string) \<Rightarrow> Plan \<Rightarrow> Plan" where
  "InterpolateMonitor interpolateMon p =
     fold (\<lambda>levelName q. interpolate_level interpolateMon levelName q) (map fst (Levels p)) p"

text \<open>
  The specification's reading of the two operations: every option value of every domain of
  every level is replaced by its image, once, and nothing else changes.
\<close>

definition rewrite_every_option :: "(string \<Rightarrow> string) \<Rightarrow> Plan \<Rightarrow> Plan" where
  "rewrite_every_option f p =
     p\<lparr>Levels :=
         map (\<lambda>(n, l).
               (n, l\<lparr>Collect :=
                     map (\<lambda>(m, d). (m, d\<lparr>Options := map (\<lambda>(k, v). (k, f v)) (Options d)\<rparr>))
                         (Collect l)\<rparr>))
             (Levels p)\<rparr>"

text \<open>
  For the proofs about the loops: changing the value under one key of an association list,
  changing every value, and the same for the options of a domain, the domains of a level
  and the levels of a plan.
\<close>

definition upd_at :: "string \<Rightarrow> ('a \<Rightarrow> 'a) \<Rightarrow> (string \<times> 'a) list \<Rightarrow> (string \<times> 'a) list" where
  "upd_at k g m = map (\<lambda>(k', x). if k' = k then (k', g x) else (k', x)) m"

definition map_values :: "('a \<Rightarrow> 'a) \<Rightarrow> (string \<times> 'a) list \<Rightarrow> (string \<times> 'a) list" where
  "map_values g m = map (\<lambda>(k, x). (k, g x)) m"

definition with_options :: "((string \<times> string) list \<Rightarrow> (string \<times> string) list) \<Rightarrow> Domain \<Rightarrow> Domain" where
  "with_options F d = d\<lparr>Options := F (Options d)\<rparr>"

definition mod_domain :: "string \<Rightarrow> (Domain \<Rightarrow> Domain) \<Rightarrow> Level \<Rightarrow> Level" where
  "mod_domain domainName G l = l\<lparr>Collect := upd_at domainName G (Collect l)\<rparr>"

definition mod_level :: "string \<Rightarrow> (Level \<Rightarrow> Level) \<Rightarrow> Plan \<Rightarrow> Plan" where
  "mod_level levelName H p = p\<lparr>Levels := upd_at levelName H (Levels p)\<rparr>"

definition rewrite_domain :: "(string \<Rightarrow> string) \<Rightarrow> Domain \<Rightarrow> Domain" where
  "rewrite_domain f = with_options (map_values f)"

definition rewrite_level :: "(string \<Rightarrow> string) \<Rightarrow> Level \<Rightarrow> Level" where
  "rewrite_level f l = l\<lparr>Collect := map_values (rewrite_domain f) (Collect l)\<rparr>"

section \<open>The replication lag collector\<close>

definition DOMAIN :: string where "DOMAIN = ''repl.lag''"
definition OPT_HEARTBEAT_SOURCE_ID :: string where "OPT_HEARTBEAT_SOURCE_ID = ''source-id''"
definition OPT_HEARTBEAT_SOURCE_ROLE :: string where "OPT_HEARTBEAT_SOURCE_ROLE = ''source-role''"
definition OPT_HEARTBEAT_TABLE :: string where "OPT_HEARTBEAT_TABLE = ''table''"
definition OPT_WRITER :: string where "OPT_WRITER = ''writer''"
definition OPT_REPL_CHECK :: string where "OPT_REPL_CHECK = ''repl-check''"
definition OPT_REPORT_NO_HEARTBEAT :: string where "OPT_REPORT_NO_HEARTBEAT = ''report-no-heartbeat''"
definition OPT_REPORT_NOT_A_REPLICA :: string where "OPT_REPORT_NOT_A_REPLICA = ''report-not-a-replica''"
definition OPT_RENAME_DEFAULT_REPLICATION_CHANNEL :: string where
  "OPT_RENAME_DEFAULT_REPLICATION_CHANNEL = ''rename-default-replication-channel''"
definition OPT_NETWORK_LATENCY :: string where "OPT_NETWORK_LATENCY = ''network-latency''"
definition LAG_WRITER_BLIP :: string where "LAG_WRITER_BLIP = ''blip''"
definition LAG_WRITER_PFS :: string where "LAG_WRITER_PFS = ''pfs''"

subsection \<open>Values\<close>

datatype metric_type = COUNTER | GAUGE

text \<open>
  A \<open>float64\<close> is a real number here. The conversion \<open>float64(n)\<close> of an \<open>int64\<close> is exact
  up to \<open>2^53\<close> in absolute value and rounds to the nearest representable number, ties to
  even, beyond.
\<close>

definition float64_of_int :: "int \<Rightarrow> real" where
  "float64_of_int n =
     (if \<bar>n\<bar> \<le> 2 ^ 53 then real_of_int n
      else let e = nat (bitlen \<bar>n\<bar> - 53);
               q = \<bar>n\<bar> div 2 ^ e;
               r = \<bar>n\<bar> mod 2 ^ e;
               q' = (if 2 * r > 2 ^ e \<or> (2 * r = 2 ^ e \<and> odd q) then q + 1 else q)
           in real_of_int (sgn n * q' * 2 ^ e))"

record MetricValue =
  Name :: string
  Type :: metric_type
  Value :: real
  Meta :: "(string \<times> string) list"

text \<open>The sample of the heartbeat reader, \<open>heartbeat.Lag\<close>, with the fields the collector reads.\<close>

record heartbeat_Lag =
  Milliseconds :: "64 word"
  SourceId :: string
  Replica :: bool

record NullString =
  String :: string
  Valid :: bool

text \<open>
  Errors. The constructors of the collector's own errors stand for the messages built by
  \<open>fmt.Errorf\<close>:
  \<^item> \<open>DifferentWriter a b\<close>: "different writer configuration: a != b";
  \<^item> \<open>AutoDetectFailed\<close>: "failed to auto-detect source, set writer manually";
  \<^item> \<open>InvalidLagWriter w\<close>: "invalid lag writer: w; valid values: auto, pfs, blip";
  \<^item> \<open>ReplCheckFailed s\<close>: "checking if instance is replica failed, please check value of
    repl-check. Err: s", where \<open>s\<close> is the message of the driver's error;
  \<^item> \<open>LagQueryFailed s\<close>: "could not check replication lag, check that this is a MySQL 8.0
    replica, and that performance_schema is enabled. Err: s";
  \<^item> \<open>InvalidLagValue s\<close>: "cannot determine replica lag because
    performance_schema.replication_applier_status_by_worker returned an invalid value: s
    (expected a positive integer value)";
  \<^item> \<open>NotAFloat s\<close>: "couldn't convert replica lag from performance schema into float. Lag: s";
  \<^item> \<open>External s\<close>: an error with the message \<open>s\<close> made by code that is not among the
    sources (the heartbeat reader, \<open>collectPFSv2\<close>) and returned as it is.
\<close>

datatype error =
    DifferentWriter string string
  | AutoDetectFailed
  | InvalidLagWriter string
  | ReplCheckFailed string
  | LagQueryFailed string
  | InvalidLagValue string
  | NotAFloat string
  | External string

subsection \<open>The heartbeat reader\<close>

record SlowFastWaiter =
  MonitorId :: string
  NetworkLatency :: "64 word"

record BlipReaderArgs =
  MonitorId :: string
  Table :: string
  SourceId :: string
  SourceRole :: string
  ReplCheck :: string
  Waiter :: SlowFastWaiter

record BlipReader =
  Args :: BlipReaderArgs
  Running :: bool

text \<open>
  Modelled from the spec: the heartbeat reader (\<open>heartbeat.NewBlipReader\<close> and its methods
  \<open>Start\<close> and \<open>Stop\<close>) is not among the sources. Sections 4.5 and 6 give it as a
  collaborator constructed from its arguments, with the lifecycle \<open>Start()\<close> / \<open>Stop()\<close>
  of one background sampling task.
\<close>

definition NewBlipReader :: "BlipReaderArgs \<Rightarrow> BlipReader" where
  "NewBlipReader args = \<lparr>Args = args, Running = False\<rparr>"

definition Start :: "BlipReader \<Rightarrow> BlipReader" where
  "Start r = r\<lparr>Running := True\<rparr>"

definition Stop :: "BlipReader \<Rightarrow> BlipReader" where
  "Stop r = r\<lparr>Running := False\<rparr>"

subsection \<open>The collector\<close>

record Lag =
  lagReader :: "BlipReader option"
  lagWriterIn :: "string \<rightharpoonup> string"
  dropNoHeartbeat :: "string \<rightharpoonup> bool"
  dropNotAReplica :: "string \<rightharpoonup> bool"
  renameDefaultReplicationChannel :: "string \<rightharpoonup> bool"
  replCheck :: string

definition NewLag :: Lag where
  "NewLag = \<lparr>lagReader = None, lagWriterIn = Map.empty, dropNoHeartbeat = Map.empty,
             dropNotAReplica = Map.empty, renameDefaultReplicationChannel = Map.empty,
             replCheck = []\<rparr>"

text \<open>Reading the collector's maps: a missing key gives the zero value.\<close>

definition writer_in :: "Lag \<Rightarrow> string \<Rightarrow> string" where
  "writer_in c levelName = (case lagWriterIn c levelName of None \<Rightarrow> [] | Some w \<Rightarrow> w)"

definition flag_at :: "(string \<rightharpoonup> bool) \<Rightarrow> string \<Rightarrow> bool" where
  "flag_at m levelName = (case m levelName of None \<Rightarrow> False | Some b \<Rightarrow> b)"

text \<open>
  What the collector calls and the sources do not contain: the helpers \<open>blip.Bool\<close>,
  \<open>sqlutil.CleanObjectName\<close> and \<open>sqlutil.Float64\<close>, the constant
  \<open>blip.DEFAULT_HEARTBEAT_TABLE\<close>, the method \<open>collectPFSv2\<close> (a function of the collector,
  the level name and the database), the sample \<open>c.lagReader.Lag(ctx)\<close> of a reader, and the
  database: \<open>c.db.QueryRowContext(ctx, query).Scan(&x)\<close> for an \<open>int\<close> and for a
  \<open>sql.NullString\<close>. They are parameters of the model; where one of them fails, it gives the
  message of its error.
\<close>

record collaborators =
  blip_Bool :: "string \<Rightarrow> bool"
  sqlutil_CleanObjectName :: "string \<Rightarrow> string"
  sqlutil_Float64 :: "string \<Rightarrow> real \<times> bool"
  DEFAULT_HEARTBEAT_TABLE :: string
  collectPFSv2 :: "Lag \<Rightarrow> string \<Rightarrow> string + MetricValue list"
  reader_Lag :: "BlipReader \<Rightarrow> string + heartbeat_Lag"
  scan_int :: "string \<Rightarrow> string + int"
  scan_NullString :: "string \<Rightarrow> string + NullString"

definition returned_as_is :: "string + 'a \<Rightarrow> error + 'a" where
  "returned_as_is r = (case r of Inl msg \<Rightarrow> Inl (External msg) | Inr x \<Rightarrow> Inr x)"

subsection \<open>prepareBlip\<close>

text \<open>
  \<open>strconv.Atoi\<close>: an optional sign, then at least one decimal digit, and a value that
  fits 64 bits; anything else is an error.
\<close>

fun digits_value :: "nat \<Rightarrow> string \<Rightarrow> nat option" where
  "digits_value acc [] = Some acc"
| "digits_value acc (ch # cs) =
     (let d = (of_char ch :: nat)
      in if 48 \<le> d \<and> d \<le> 57 then digits_value (10 * acc + (d - 48)) cs else None)"

definition Atoi :: "string \<Rightarrow> int option" where
  "Atoi s =
     (let neg = (s \<noteq> [] \<and> hd s = CHR ''-'');
          ds = (if s \<noteq> [] \<and> (hd s = CHR ''-'' \<or> hd s = CHR ''+'') then tl s else s)
      in if ds = [] then None
         else case digits_value 0 ds of
                None \<Rightarrow> None
              | Some n \<Rightarrow>
                  (let v = (if neg then - int n else int n)
                   in if - (2 ^ 63) \<le> v \<and> v < 2 ^ 63 then Some v else None))"

text \<open>\<open>time.Millisecond\<close>, in nanoseconds; a \<open>time.Duration\<close> is an \<open>int64\<close>.\<close>

definition Millisecond :: "64 word" where
  "Millisecond = 1000000"

text \<open>
  The cleanup returned by \<open>prepareBlip\<close> is the closure that calls \<open>c.lagReader.Stop()\<close>;
  \<open>None\<close> is the nil function.
\<close>

datatype cleanup = StopLagReader

definition prepareBlip ::
  "collaborators \<Rightarrow> string \<Rightarrow> string \<Rightarrow> string \<Rightarrow> (string \<times> string) list \<Rightarrow> Lag
     \<Rightarrow> Lag \<times> (error + cleanup option)" where
  "prepareBlip env levelName monitorID planName options c =
     (if lagReader c \<noteq> None then (c, Inr None)
      else
        let c1 = c\<lparr>dropNoHeartbeat :=
                     (dropNoHeartbeat c)(levelName \<mapsto> \<not> blip_Bool env (str_at options OPT_REPORT_NO_HEARTBEAT))\<rparr>;
            table = (if str_at options OPT_HEARTBEAT_TABLE = []
                     then DEFAULT_HEARTBEAT_TABLE env
                     else str_at options OPT_HEARTBEAT_TABLE);
            netLatency =
              (case map_of options OPT_NETWORK_LATENCY of
                 None \<Rightarrow> 50 * Millisecond
               | Some s \<Rightarrow>
                   (case Atoi s of
                      None \<Rightarrow> 50 * Millisecond
                    | Some n \<Rightarrow> word_of_int n * Millisecond));
            c2 = c1\<lparr>lagReader :=
                      Some (Start (NewBlipReader
                        \<lparr>BlipReaderArgs.MonitorId = monitorID,
                         Table = table,
                         BlipReaderArgs.SourceId = str_at options OPT_HEARTBEAT_SOURCE_ID,
                         SourceRole = str_at options OPT_HEARTBEAT_SOURCE_ROLE,
                         ReplCheck = replCheck c1,
                         Waiter = \<lparr>SlowFastWaiter.MonitorId = monitorID,
                                   NetworkLatency = netLatency\<rparr>\<rparr>))\<rparr>;
            c3 = c2\<lparr>lagWriterIn := (lagWriterIn c2)(levelName \<mapsto> LAG_WRITER_BLIP)\<rparr>
        in (c3, Inr (Some StopLagReader)))"

subsection \<open>Prepare\<close>

text \<open>
  The \<open>switch writer\<close> of the loop body: the collector after it, and either the error
  that \<open>Prepare\<close> returns or the values of \<open>writer\<close> and \<open>cleanup\<close> after it.
\<close>

definition switch_writer ::
  "collaborators \<Rightarrow> Plan \<Rightarrow> string \<Rightarrow> Domain \<Rightarrow> string \<Rightarrow> cleanup option \<Rightarrow> Lag
     \<Rightarrow> Lag \<times> (error + string \<times> cleanup option)" where
  "switch_writer env plan levelName dm writer cleanup c =
     (if writer = LAG_WRITER_PFS then
        (case returned_as_is (collectPFSv2 env c levelName) of
           Inl err \<Rightarrow> (c, Inl err)
         | Inr _ \<Rightarrow> (c, Inr (writer, cleanup)))
      else if writer = LAG_WRITER_BLIP then
        (case prepareBlip env levelName (Plan.MonitorId plan) (Plan.Name plan) (Options dm) c of
           (c1, Inl err) \<Rightarrow> (c1, Inl err)
         | (c1, Inr cleanup1) \<Rightarrow> (c1, Inr (writer, cleanup1)))
      else if writer = ''auto'' \<or> writer = [] then
        (case returned_as_is (collectPFSv2 env c levelName) of
           Inr _ \<Rightarrow> (c, Inr (LAG_WRITER_PFS, cleanup))
         | Inl _ \<Rightarrow>
             (case prepareBlip env levelName (Plan.MonitorId plan) (Plan.Name plan) (Options dm) c of
                (c1, Inr cleanup1) \<Rightarrow> (c1, Inr (LAG_WRITER_BLIP, cleanup1))
              | (c1, Inl _) \<Rightarrow> (c1, Inl AutoDetectFailed)))
      else (c, Inl (InvalidLagWriter writer)))"

text \<open>
  One pass of the loop over \<open>plan.Levels\<close>, for the entry \<open>(levelName, level)\<close>, with the
  local variables \<open>configured\<close> and \<open>cleanup\<close>: the collector after the pass and either the
  error that \<open>Prepare\<close> returns or the value of \<open>cleanup\<close> for the next pass. The source
  never assigns \<open>configured\<close>, so no new value of it is passed on.
\<close>

definition prepare_level ::
  "collaborators \<Rightarrow> Plan \<Rightarrow> string \<Rightarrow> Level \<Rightarrow> string \<Rightarrow> cleanup option \<Rightarrow> Lag
     \<Rightarrow> Lag \<times> (error + cleanup option)" where
  "prepare_level env plan levelName level configured cleanup c =
     (case map_of (Collect level) DOMAIN of
        None \<Rightarrow> (c, Inr cleanup)
      | Some dm \<Rightarrow>
          (let writer = str_at (Options dm) OPT_WRITER
           in if configured \<noteq> [] then
                (if configured \<noteq> writer then (c, Inl (DifferentWriter configured writer))
                 else (c\<lparr>lagWriterIn := (lagWriterIn c)(levelName \<mapsto> writer)\<rparr>, Inr cleanup))
              else
                (case switch_writer env plan levelName dm writer cleanup c of
                   (c1, Inl err) \<Rightarrow> (c1, Inl err)
                 | (c1, Inr (writer1, cleanup1)) \<Rightarrow>
                     (c1\<lparr>lagWriterIn := (lagWriterIn c1)(levelName \<mapsto> writer1),
                         dropNotAReplica :=
                           (dropNotAReplica c1)(levelName \<mapsto>
                              \<not> blip_Bool env (str_at (Options dm) OPT_REPORT_NOT_A_REPLICA)),
                         renameDefaultReplicationChannel :=
                           (renameDefaultReplicationChannel c1)(levelName \<mapsto>
                              \<not> blip_Bool env (str_at (Options dm) OPT_RENAME_DEFAULT_REPLICATION_CHANNEL)),
                         replCheck := sqlutil_CleanObjectName env (str_at (Options dm) OPT_REPL_CHECK)\<rparr>,
                      Inr cleanup1))))"

fun prepare_levels ::
  "collaborators \<Rightarrow> Plan \<Rightarrow> (string \<times> Level) list \<Rightarrow> string \<Rightarrow> cleanup option \<Rightarrow> Lag
     \<Rightarrow> Lag \<times> (error + cleanup option)" where
  "prepare_levels env plan [] configured cleanup c = (c, Inr cleanup)"
| "prepare_levels env plan ((levelName, level) # rest) configured cleanup c =
     (case prepare_level env plan levelName level configured cleanup c of
        (c1, Inl err) \<Rightarrow> (c1, Inl err)
      | (c1, Inr cleanup1) \<Rightarrow> prepare_levels env plan rest configured cleanup1 c1)"

text \<open>
  \<open>Prepare\<close>: the collector as \<open>Prepare\<close> leaves it, and the error or the cleanup function
  it returns.
\<close>

definition Prepare :: "collaborators \<Rightarrow> Lag \<Rightarrow> Plan \<Rightarrow> Lag \<times> (error + cleanup option)" where
  "Prepare env c plan = prepare_levels env plan (Levels plan) [] None c"

text \<open>Every heartbeat reader that the collector holds has its background task running.\<close>

definition readers_running :: "Lag \<Rightarrow> bool" where
  "readers_running c = (\<forall>r. lagReader c = Some r \<longrightarrow> Running r)"

subsection \<open>Collect\<close>

datatype panic =
    NilPointerDereference
  | InvalidLagWriterInCollect string string "string \<rightharpoonup> string"

datatype 'a outcome = Returns 'a | Panics panic

text \<open>
  Calling the function that \<open>Prepare\<close> returned: the closure of \<open>prepareBlip\<close> runs
  \<open>c.lagReader.Stop()\<close>, and calling the nil function panics.
\<close>

definition call_cleanup :: "cleanup option \<Rightarrow> Lag \<Rightarrow> Lag outcome" where
  "call_cleanup f c =
     (case f of
        None \<Rightarrow> Panics NilPointerDereference
      | Some StopLagReader \<Rightarrow>
          (case lagReader c of
             None \<Rightarrow> Panics NilPointerDereference
           | Some reader \<Rightarrow> Returns (c\<lparr>lagReader := Some (Stop reader)\<rparr>)))"

text \<open>
  \<open>collectBlip\<close>. Calling \<open>Lag\<close> on the nil reader of a collector that never ran
  \<open>prepareBlip\<close> is a nil pointer dereference.
\<close>

definition collectBlip ::
  "collaborators \<Rightarrow> Lag \<Rightarrow> string \<Rightarrow> (error + MetricValue list) outcome" where
  "collectBlip env c levelName =
     (case lagReader c of
        None \<Rightarrow> Panics NilPointerDereference
      | Some reader \<Rightarrow>
          Returns
            (case returned_as_is (reader_Lag env reader) of
               Inl err \<Rightarrow> Inl err
             | Inr lag \<Rightarrow>
                 (let m = \<lparr>MetricValue.Name = ''current'',
                           Type = GAUGE,
                           Value = float64_of_int (sint (Milliseconds lag)),
                           Meta = [(''source'', heartbeat_Lag.SourceId lag)]\<rparr>
                  in if \<not> Replica lag then
                       (if flag_at (dropNotAReplica c) levelName then Inr [] else Inr [m])
                     else if Milliseconds lag = - 1 \<and> flag_at (dropNoHeartbeat c) levelName then Inr []
                     else Inr [m])))"



text \<open>
  The method \<open>Collect\<close> of the collector (\<open>Collect\<close> alone is the field of a level here);
  the panic carries what the source formats into its message: the writer of
  the level, the level name and the map of all levels.
\<close>

definition Lag_Collect ::
  "collaborators \<Rightarrow> Lag \<Rightarrow> string \<Rightarrow> (error + MetricValue list) outcome" where
  "Lag_Collect env c levelName =
     (if writer_in c levelName = LAG_WRITER_BLIP then collectBlip env c levelName
      else if writer_in c levelName = LAG_WRITER_PFS
      then Returns (returned_as_is (collectPFSv2 env c levelName))
      else Panics (InvalidLagWriterInCollect (writer_in c levelName) levelName (lagWriterIn c)))"

section \<open>What the lag query computes\<close>

text \<open>
  The rows of \<open>performance_schema.replication_applier_status_by_worker\<close> and of
  \<open>performance_schema.replication_connection_status\<close>, with the columns that
  \<open>MySQL8LagQuery\<close> reads. A timestamp is a number of microseconds since the epoch (the
  columns are \<open>TIMESTAMP(6)\<close>), and the rows carry real timestamps, not the zero one.
\<close>

record applier_status_by_worker =
  CHANNEL_NAME :: string
  LAST_APPLIED_TRANSACTION :: string
  LAST_APPLIED_TRANSACTION_ORIGINAL_COMMIT_TIMESTAMP :: int
  LAST_APPLIED_TRANSACTION_IMMEDIATE_COMMIT_TIMESTAMP :: int
  LAST_APPLIED_TRANSACTION_END_APPLY_TIMESTAMP :: int

record connection_status =
  CHANNEL_NAME :: string
  LAST_QUEUED_TRANSACTION :: string
  LAST_QUEUED_TRANSACTION_ORIGINAL_COMMIT_TIMESTAMP :: int

text \<open>
  The functions of MySQL that the query calls. \<open>TIMESTAMPDIFF(unit, a, b)\<close> is \<open>b - a\<close> in
  whole units, rounded towards zero; \<open>NOW()\<close> is the time of the statement cut to the
  second and \<open>NOW(3)\<close> the same cut to the millisecond; \<open>MIN\<close> of no row is \<open>NULL\<close>
  (\<open>None\<close>); \<open>GREATEST\<close> is \<open>NULL\<close> as soon as one argument is; a comparison with \<open>NULL\<close>
  is \<open>NULL\<close>, and \<open>IF\<close> takes its last argument then.
\<close>

definition TIMESTAMPDIFF_MICROSECOND :: "int \<Rightarrow> int \<Rightarrow> int" where
  "TIMESTAMPDIFF_MICROSECOND a b = b - a"

definition TIMESTAMPDIFF_MINUTE :: "int \<Rightarrow> int \<Rightarrow> int" where
  "TIMESTAMPDIFF_MINUTE a b = sgn (b - a) * (\<bar>b - a\<bar> div 60000000)"

definition NOW :: "int \<Rightarrow> int" where
  "NOW t = t - t mod 1000000"

definition NOW3 :: "int \<Rightarrow> int" where
  "NOW3 t = t - t mod 1000"

fun sql_MIN :: "'a::linorder list \<Rightarrow> 'a option" where
  "sql_MIN [] = None"
| "sql_MIN (x # xs) = (case sql_MIN xs of None \<Rightarrow> Some x | Some m \<Rightarrow> Some (min x m))"

definition sql_GREATEST :: "real option \<Rightarrow> real option \<Rightarrow> real option" where
  "sql_GREATEST a b = (case (a, b) of (Some x, Some y) \<Rightarrow> Some (max x y) | _ \<Rightarrow> None)"

text \<open>
  The first common table expression, \<open>applier_latency\<close>: the row of the worker that applied
  last (\<open>ORDER BY ... DESC LIMIT 1\<close>; among equal timestamps, the first of the table), and
  no row when the table is empty.
\<close>

fun applied_last :: "applier_status_by_worker \<Rightarrow> applier_status_by_worker list \<Rightarrow> applier_status_by_worker" where
  "applied_last w [] = w"
| "applied_last w (x # xs) =
     applied_last
       (if LAST_APPLIED_TRANSACTION_END_APPLY_TIMESTAMP x > LAST_APPLIED_TRANSACTION_END_APPLY_TIMESTAMP w
        then x else w) xs"

definition applier_latency :: "applier_status_by_worker list \<Rightarrow> real list" where
  "applier_latency workers =
     (case workers of
        [] \<Rightarrow> []
      | w # ws \<Rightarrow>
          [real_of_int
             (TIMESTAMPDIFF_MICROSECOND
                (LAST_APPLIED_TRANSACTION_ORIGINAL_COMMIT_TIMESTAMP (applied_last w ws))
                (LAST_APPLIED_TRANSACTION_END_APPLY_TIMESTAMP (applied_last w ws))) / 1000])"

text \<open>The join \<open>w JOIN s ON s.channel_name = w.channel_name\<close>.\<close>

definition worker_join_status ::
  "applier_status_by_worker list \<Rightarrow> connection_status list
     \<Rightarrow> (applier_status_by_worker \<times> connection_status) list" where
  "worker_join_status workers statuses =
     concat (map (\<lambda>w. map (\<lambda>s. (w, s))
                          (filter (\<lambda>s. connection_status.CHANNEL_NAME s
                                         = applier_status_by_worker.CHANNEL_NAME w) statuses))
                 workers)"

text \<open>
  The second common table expression, \<open>queue_latency\<close>, always one row: the columns
  \<open>queue_latency_ms\<close> and \<open>queue_status\<close>. \<open>GTID_SUBTRACT\<close> is a parameter, and \<open>t\<close> is the
  time of the statement.
\<close>

definition queue_latency_ms ::
  "(string \<Rightarrow> string \<Rightarrow> string) \<Rightarrow> int
     \<Rightarrow> (applier_status_by_worker \<times> connection_status) list \<Rightarrow> real option" where
  "queue_latency_ms GTID_SUBTRACT t rows =
     sql_MIN (map (\<lambda>(w, s).
                 if LAST_QUEUED_TRANSACTION s = ''ANONYMOUS''
                    \<or> LAST_APPLIED_TRANSACTION w = ''ANONYMOUS''
                    \<or> GTID_SUBTRACT (LAST_QUEUED_TRANSACTION s) (LAST_APPLIED_TRANSACTION w) = []
                 then 0
                 else real_of_int
                        (TIMESTAMPDIFF_MICROSECOND
                           (LAST_APPLIED_TRANSACTION_IMMEDIATE_COMMIT_TIMESTAMP w) (NOW3 t)) / 1000)
              rows)"

definition queue_status :: "int \<Rightarrow> (applier_status_by_worker \<times> connection_status) list \<Rightarrow> string" where
  "queue_status t rows =
     (case sql_MIN (map (\<lambda>(w, s).
                       TIMESTAMPDIFF_MINUTE (LAST_QUEUED_TRANSACTION_ORIGINAL_COMMIT_TIMESTAMP s) (NOW t))
                    rows) of
        None \<Rightarrow> ''ACTIVE''
      | Some m \<Rightarrow> if m > 1 then ''IDLE'' else ''ACTIVE'')"

text \<open>
  The rows of the query, each the column \<open>lagMs\<close>: the product of the two common table
  expressions.
\<close>

definition lagMs ::
  "(string \<Rightarrow> string \<Rightarrow> string) \<Rightarrow> int \<Rightarrow> applier_status_by_worker list \<Rightarrow> connection_status list
     \<Rightarrow> real option list" where
  "lagMs GTID_SUBTRACT t workers statuses =
     map (\<lambda>applier_latency_ms.
            if queue_status t (worker_join_status workers statuses) = ''IDLE'' then Some 0
            else sql_GREATEST (Some applier_latency_ms)
                   (queue_latency_ms GTID_SUBTRACT t (worker_join_status workers statuses)))
         (applier_latency workers)"

section \<open>Example plans and targets\<close>

text \<open>
  A monitored target for the examples: \<open>blip.Bool\<close> holds of "yes" only,
  \<open>sqlutil.CleanObjectName\<close> changes nothing, \<open>probe\<close> is what \<open>collectPFSv2\<close> gives, and the
  target has no heartbeat table, so that the reader has no sample to give.
\<close>

definition target :: "string + MetricValue list \<Rightarrow> collaborators" where
  "target probe =
     \<lparr>blip_Bool = (\<lambda>s. s = ''yes''),
      sqlutil_CleanObjectName = (\<lambda>s. s),
      sqlutil_Float64 = (\<lambda>s. (0, False)),
      DEFAULT_HEARTBEAT_TABLE = ''blip.heartbeat'',
      collectPFSv2 = (\<lambda>c levelName. probe),
      reader_Lag = (\<lambda>r. Inl ''Table 'blip.heartbeat' doesn't exist''),
      scan_int = (\<lambda>q. Inl ''no rows''),
      scan_NullString = (\<lambda>q. Inl ''no rows'')\<rparr>"

definition lag_level :: "string \<Rightarrow> (string \<times> string) list \<Rightarrow> string \<times> Level" where
  "lag_level levelName options =
     (levelName,
      \<lparr>Level.Name = levelName, Freq = ''5s'',
       Collect = [(''repl.lag'', \<lparr>Domain.Name = ''repl.lag'', Options = options, Metrics = []\<rparr>)]\<rparr>)"

definition lag_plan :: "(string \<times> Level) list \<Rightarrow> Plan" where
  "lag_plan levels = \<lparr>Plan.Name = ''plan'', Levels = levels, MonitorId = ''m1''\<rparr>"

section \<open>Properties of Prepare and Collect\<close>

subsection \<open>The steps of Prepare\<close>

lemmas opt_names =
  DOMAIN_def OPT_HEARTBEAT_SOURCE_ID_def OPT_HEARTBEAT_SOURCE_ROLE_def OPT_HEARTBEAT_TABLE_def
  OPT_WRITER_def OPT_REPL_CHECK_def OPT_REPORT_NO_HEARTBEAT_def OPT_REPORT_NOT_A_REPLICA_def
  OPT_RENAME_DEFAULT_REPLICATION_CHANNEL_def OPT_NETWORK_LATENCY_def
  LAG_WRITER_BLIP_def LAG_WRITER_PFS_def

lemma prepareBlip_never_fails:
  "\<exists>c1 cl. prepareBlip env levelName monitorID planName options c = (c1, Inr cl)"
  by (cases "lagReader c = None") (simp_all add: prepareBlip_def Let_def)

lemma prepareBlip_frame:
  assumes "prepareBlip env levelName monitorID planName options c = (c1, r)"
  shows "l \<noteq> levelName \<Longrightarrow> lagWriterIn c1 l = lagWriterIn c l"
    and "l \<noteq> levelName \<Longrightarrow> dropNoHeartbeat c1 l = dropNoHeartbeat c l"
    and "dropNotAReplica c1 = dropNotAReplica c"
    and "replCheck c1 = replCheck c"
    and "lagReader c \<noteq> None \<Longrightarrow> c1 = c"
    and "readers_running c \<Longrightarrow> readers_running c1"
    and "lagReader c1 \<noteq> None"
    and "dropNoHeartbeat c1 levelName = dropNoHeartbeat c levelName
         \<or> dropNoHeartbeat c1 levelName = Some (\<not> blip_Bool env (str_at options OPT_REPORT_NO_HEARTBEAT))"
  using assms
  by (auto simp: prepareBlip_def Let_def Start_def NewBlipReader_def readers_running_def split: if_splits)

lemma switch_writer_frame:
  assumes "switch_writer env plan levelName dm writer cleanup c = (c1, r)"
  shows "l \<noteq> levelName \<Longrightarrow> lagWriterIn c1 l = lagWriterIn c l"
    and "l \<noteq> levelName \<Longrightarrow> dropNoHeartbeat c1 l = dropNoHeartbeat c l"
    and "dropNotAReplica c1 = dropNotAReplica c"
    and "replCheck c1 = replCheck c"
    and "lagReader c \<noteq> None \<Longrightarrow> lagReader c1 = lagReader c"
    and "readers_running c \<Longrightarrow> readers_running c1"
    and "dropNoHeartbeat c1 levelName = dropNoHeartbeat c levelName
         \<or> dropNoHeartbeat c1 levelName = Some (\<not> blip_Bool env (str_at (Options dm) OPT_REPORT_NO_HEARTBEAT))"
  using assms
  by (auto simp: switch_writer_def split: if_splits sum.splits prod.splits
           dest: prepareBlip_frame)


lemma switch_writer_error:
  assumes "switch_writer env plan levelName dm writer cleanup c = (c1, Inl e)"
  shows "(\<exists>msg. e = External msg) \<or> e = InvalidLagWriter writer"
proof -
  have nf: "\<And>c1 e. prepareBlip env levelName (Plan.MonitorId plan) (Plan.Name plan) (Options dm) c \<noteq> (c1, Inl e)"
    using prepareBlip_never_fails[of env levelName "Plan.MonitorId plan" "Plan.Name plan" "Options dm" c]
    by auto
  show ?thesis
    using assms nf
    by (auto simp: switch_writer_def returned_as_is_def split: if_splits sum.splits prod.splits)
qed

lemma prepare_level_skip:
  "map_of (Collect level) DOMAIN = None \<Longrightarrow>
   prepare_level env plan levelName level configured cleanup c = (c, Inr cleanup)"
  by (simp add: prepare_level_def)

lemma prepare_level_frame:
  assumes "prepare_level env plan levelName level configured cleanup c = (c1, r)"
  shows "l \<noteq> levelName \<Longrightarrow> lagWriterIn c1 l = lagWriterIn c l"
    and "l \<noteq> levelName \<Longrightarrow> dropNoHeartbeat c1 l = dropNoHeartbeat c l"
    and "l \<noteq> levelName \<Longrightarrow> dropNotAReplica c1 l = dropNotAReplica c l"
    and "lagReader c \<noteq> None \<Longrightarrow> lagReader c1 = lagReader c"
    and "readers_running c \<Longrightarrow> readers_running c1"
  using assms
  by (auto simp: prepare_level_def Let_def readers_running_def
           split: option.splits if_splits sum.splits prod.splits
           dest: switch_writer_frame)


lemma prepare_level_error:
  assumes "prepare_level env plan levelName level [] cleanup c = (c1, Inl e)"
  shows "(\<exists>msg. e = External msg) \<or> (\<exists>w. e = InvalidLagWriter w)"
  using assms
  by (auto simp: prepare_level_def Let_def split: option.splits sum.splits prod.splits
           dest!: switch_writer_error)

lemma prepare_level_auto_fallback:
  assumes "map_of (Collect level) DOMAIN = Some dm"
    and "str_at (Options dm) OPT_WRITER = ''auto'' \<or> str_at (Options dm) OPT_WRITER = []"
    and "collectPFSv2 env c levelName = Inl msg"
  shows "\<exists>c1 cleanup1. prepare_level env plan levelName level [] cleanup c = (c1, Inr cleanup1)
           \<and> lagWriterIn c1 levelName = Some LAG_WRITER_BLIP \<and> lagReader c1 \<noteq> None"
proof -
  obtain c2 cl2 where pb:
    "prepareBlip env levelName (Plan.MonitorId plan) (Plan.Name plan) (Options dm) c = (c2, Inr cl2)"
    using prepareBlip_never_fails by blast
  have "switch_writer env plan levelName dm (str_at (Options dm) OPT_WRITER) cleanup c
          = (c2, Inr (LAG_WRITER_BLIP, cl2))"
    using assms(2,3) pb
    by (auto simp: switch_writer_def returned_as_is_def LAG_WRITER_PFS_def LAG_WRITER_BLIP_def)
  then show ?thesis
    using assms(1) prepareBlip_frame(7)[OF pb]
    by (simp add: prepare_level_def Let_def)
qed

lemma prepare_levels_frame:
  assumes "prepare_levels env plan ls configured cleanup c = (c1, r)"
    and "l \<notin> fst ` set ls"
  shows "lagWriterIn c1 l = lagWriterIn c l \<and> dropNoHeartbeat c1 l = dropNoHeartbeat c l
         \<and> dropNotAReplica c1 l = dropNotAReplica c l"
  using assms
proof (induction ls arbitrary: cleanup c)
  case Nil
  then show ?case by simp
next
  case (Cons x ls)
  obtain levelName level where x: "x = (levelName, level)" by (cases x)
  obtain c2 r2 where step: "prepare_level env plan levelName level configured cleanup c = (c2, r2)"
    by (cases "prepare_level env plan levelName level configured cleanup c")
  have ne: "l \<noteq> levelName" and rest: "l \<notin> fst ` set ls"
    using Cons.prems(2) by (auto simp: x)
  have here: "lagWriterIn c2 l = lagWriterIn c l \<and> dropNoHeartbeat c2 l = dropNoHeartbeat c l
         \<and> dropNotAReplica c2 l = dropNotAReplica c l"
    using prepare_level_frame(1-3)[OF step ne] by simp
  show ?case
  proof (cases r2)
    case (Inl e)
    then show ?thesis using Cons.prems(1) here by (simp add: x step)
  next
    case (Inr cleanup2)
    then have "prepare_levels env plan ls configured cleanup2 c2 = (c1, r)"
      using Cons.prems(1) by (simp add: x step)
    from Cons.IH[OF this rest] here show ?thesis by simp
  qed
qed

lemma prepare_levels_reader_kept:
  assumes "prepare_levels env plan ls configured cleanup c = (c1, r)"
    and "lagReader c \<noteq> None"
  shows "lagReader c1 = lagReader c"
  using assms
proof (induction ls arbitrary: cleanup c)
  case Nil
  then show ?case by simp
next
  case (Cons x ls)
  obtain levelName level where x: "x = (levelName, level)" by (cases x)
  obtain c2 r2 where step: "prepare_level env plan levelName level configured cleanup c = (c2, r2)"
    by (cases "prepare_level env plan levelName level configured cleanup c")
  have c2: "lagReader c2 = lagReader c"
    using prepare_level_frame(4)[OF step] Cons.prems(2) by simp
  show ?case
  proof (cases r2)
    case (Inl e)
    then show ?thesis using Cons.prems(1) c2 by (simp add: x step)
  next
    case (Inr cleanup2)
    then have "prepare_levels env plan ls configured cleanup2 c2 = (c1, r)"
      using Cons.prems(1) by (simp add: x step)
    from Cons.IH[OF this] c2 Cons.prems(2) show ?thesis by simp
  qed
qed

lemma prepare_levels_running:
  assumes "prepare_levels env plan ls configured cleanup c = (c1, r)"
    and "readers_running c"
  shows "readers_running c1"
  using assms
proof (induction ls arbitrary: cleanup c)
  case Nil
  then show ?case by simp
next
  case (Cons x ls)
  obtain levelName level where x: "x = (levelName, level)" by (cases x)
  obtain c2 r2 where step: "prepare_level env plan levelName level configured cleanup c = (c2, r2)"
    by (cases "prepare_level env plan levelName level configured cleanup c")
  have c2: "readers_running c2"
    using prepare_level_frame(5)[OF step] Cons.prems(2) by simp
  show ?case
  proof (cases r2)
    case (Inl e)
    then show ?thesis using Cons.prems(1) c2 by (simp add: x step)
  next
    case (Inr cleanup2)
    then have "prepare_levels env plan ls configured cleanup2 c2 = (c1, r)"
      using Cons.prems(1) by (simp add: x step)
    from Cons.IH[OF this c2] show ?thesis .
  qed
qed

lemma prepare_levels_error:
  assumes "prepare_levels env plan ls [] cleanup c = (c1, Inl e)"
  shows "(\<exists>msg. e = External msg) \<or> (\<exists>w. e = InvalidLagWriter w)"
  using assms
proof (induction ls arbitrary: cleanup c)
  case Nil
  then show ?case by simp
next
  case (Cons x ls)
  obtain levelName level where x: "x = (levelName, level)" by (cases x)
  obtain c2 r2 where step: "prepare_level env plan levelName level [] cleanup c = (c2, r2)"
    by (cases "prepare_level env plan levelName level [] cleanup c")
  show ?case
  proof (cases r2)
    case (Inl e2)
    then have "e2 = e" using Cons.prems by (simp add: x step)
    then show ?thesis using prepare_level_error step Inl by blast
  next
    case (Inr cleanup2)
    then have "prepare_levels env plan ls [] cleanup2 c2 = (c1, Inl e)"
      using Cons.prems by (simp add: x step)
    from Cons.IH[OF this] show ?thesis .
  qed
qed



lemma prepare_levels_auto:
  assumes "distinct (map fst ls)"
    and "(levelName, level) \<in> set ls"
    and "map_of (Collect level) DOMAIN = Some dm"
    and "str_at (Options dm) OPT_WRITER = ''auto'' \<or> str_at (Options dm) OPT_WRITER = []"
    and "\<forall>c. \<exists>msg. collectPFSv2 env c levelName = Inl msg"
    and "prepare_levels env plan ls [] cleanup c = (c1, Inr cleanup1)"
  shows "lagWriterIn c1 levelName = Some LAG_WRITER_BLIP \<and> lagReader c1 \<noteq> None"
  using assms(1,2,6)
proof (induction ls arbitrary: cleanup c)
  case Nil
  then show ?case by simp
next
  case (Cons x ls)
  obtain n lv where x: "x = (n, lv)" by (cases x)
  obtain c2 r2 where step: "prepare_level env plan n lv [] cleanup c = (c2, r2)"
    by (cases "prepare_level env plan n lv [] cleanup c")
  obtain cleanup2 where r2: "r2 = Inr cleanup2"
    and rest: "prepare_levels env plan ls [] cleanup2 c2 = (c1, Inr cleanup1)"
    using Cons.prems(3) by (cases r2) (simp_all add: x step)
  have fresh: "n \<notin> fst ` set ls" and dist: "distinct (map fst ls)"
    using Cons.prems(1) by (simp_all add: x)
  show ?case
  proof (cases "(levelName, level) \<in> set ls")
    case True
    from Cons.IH[OF dist True rest] show ?thesis .
  next
    case False
    then have here: "n = levelName" "lv = level" using Cons.prems(2) by (auto simp: x)
    obtain msg where probe: "collectPFSv2 env c levelName = Inl msg" using assms(5) by blast
    from prepare_level_auto_fallback[OF assms(3,4) probe, where plan=plan and cleanup=cleanup]
    have c2: "lagWriterIn c2 levelName = Some LAG_WRITER_BLIP" "lagReader c2 \<noteq> None"
      using step here by auto
    have out: "levelName \<notin> fst ` set ls" using fresh here by simp
    show ?thesis
      using prepare_levels_frame[OF rest out] prepare_levels_reader_kept[OF rest c2(2)] c2 by simp
  qed
qed

lemma readers_running_NewLag: "readers_running NewLag"
  by (simp add: readers_running_def NewLag_def)

lemmas prepare_simps =
  Prepare_def prepare_level_def switch_writer_def prepareBlip_def returned_as_is_def
  str_at_def NewLag_def NewBlipReader_def Start_def Millisecond_def Let_def
  target_def lag_level_def lag_plan_def opt_names

subsection \<open>Dispatch in Collect\<close>

text \<open>
  Claim C8. For a level name for which \<open>Prepare\<close> recorded no writer, \<open>Collect\<close> panics:
  it returns neither metrics nor an error. A level name that is not in the plan is such a
  name after \<open>Prepare\<close> has run on a new collector.
\<close>

theorem Collect_without_writer_panics:
  "(lagWriterIn c levelName = None \<longrightarrow>
      Lag_Collect env c levelName
        = Panics (InvalidLagWriterInCollect [] levelName (lagWriterIn c)))
   \<and> (levelName \<notin> fst ` set (Levels plan) \<longrightarrow>
        lagWriterIn (fst (Prepare env NewLag plan)) levelName = None)"
proof -
  have "lagWriterIn (fst (Prepare env NewLag plan)) levelName = lagWriterIn NewLag levelName"
    if "levelName \<notin> fst ` set (Levels plan)"
    using prepare_levels_frame[OF _ that, of env plan "[]" None NewLag]
    by (cases "Prepare env NewLag plan") (simp add: Prepare_def)
  then show ?thesis
    by (simp add: Lag_Collect_def writer_in_def LAG_WRITER_BLIP_def LAG_WRITER_PFS_def NewLag_def)
qed

theorem Collect_without_writer_panics_witness:
  "Lag_Collect (target (Inr []))
     (fst (Prepare (target (Inr [])) NewLag (lag_plan [lag_level ''5s'' [(''writer'', ''pfs'')]])))
     ''20s''
   = Panics (InvalidLagWriterInCollect [] ''20s''
       (lagWriterIn (fst (Prepare (target (Inr [])) NewLag
          (lag_plan [lag_level ''5s'' [(''writer'', ''pfs'')]])))))"
proof -
  have out: "''20s'' \<notin> fst ` set (Levels (lag_plan [lag_level ''5s'' [(''writer'', ''pfs'')]]))"
    by (simp add: lag_plan_def lag_level_def)
  show ?thesis
    using Collect_without_writer_panics
      [of "fst (Prepare (target (Inr [])) NewLag (lag_plan [lag_level ''5s'' [(''writer'', ''pfs'')]]))"
          "''20s''" "target (Inr [])" "lag_plan [lag_level ''5s'' [(''writer'', ''pfs'')]]"]
      out
    by simp
qed

subsection \<open>One writer for the plan\<close>

text \<open>
  No run of \<open>Prepare\<close> returns the error of two different writers, and none returns the
  error of a failed auto-detection.
\<close>

lemma Prepare_errors:
  assumes "Prepare env c plan = (c1, Inl e)"
  shows "(\<exists>msg. e = External msg) \<or> (\<exists>w. e = InvalidLagWriter w)"
  using assms prepare_levels_error by (simp add: Prepare_def)

text \<open>
  Claim C1 asks for a configuration-conflict error when two levels name different writers.
  The loop of \<open>Prepare\<close> never assigns \<open>configured\<close>, so the comparison of writers is
  never reached. On a target where the performance-schema probe succeeds, a plan with the
  level "5s" set to \<open>blip\<close> and the level "20s" set to \<open>pfs\<close> is prepared without an error
  in both orders of the levels, one level dispatching to each strategy; on a target where
  the probe fails, the order "5s", "20s" returns the error of the probe after the reader
  of "5s" was started, and the reader stays running.
\<close>

theorem Prepare_different_writers_succeeds:
  "snd (Prepare (target (Inr [])) NewLag
          (lag_plan [lag_level ''5s'' [(''writer'', ''blip'')], lag_level ''20s'' [(''writer'', ''pfs'')]]))
     = Inr (Some StopLagReader)
   \<and> snd (Prepare (target (Inr [])) NewLag
          (lag_plan [lag_level ''20s'' [(''writer'', ''pfs'')], lag_level ''5s'' [(''writer'', ''blip'')]]))
     = Inr (Some StopLagReader)
   \<and> lagWriterIn (fst (Prepare (target (Inr [])) NewLag
          (lag_plan [lag_level ''5s'' [(''writer'', ''blip'')], lag_level ''20s'' [(''writer'', ''pfs'')]])))
        ''5s'' = Some ''blip''
   \<and> lagWriterIn (fst (Prepare (target (Inr [])) NewLag
          (lag_plan [lag_level ''5s'' [(''writer'', ''blip'')], lag_level ''20s'' [(''writer'', ''pfs'')]])))
        ''20s'' = Some ''pfs''
   \<and> snd (Prepare (target (Inl ''performance_schema is disabled'')) NewLag
          (lag_plan [lag_level ''5s'' [(''writer'', ''blip'')], lag_level ''20s'' [(''writer'', ''pfs'')]]))
     = Inl (External ''performance_schema is disabled'')
   \<and> map_option Running
        (lagReader (fst (Prepare (target (Inl ''performance_schema is disabled'')) NewLag
          (lag_plan [lag_level ''5s'' [(''writer'', ''blip'')], lag_level ''20s'' [(''writer'', ''pfs'')]]))))
     = Some True"
  by (simp add: prepare_simps)

text \<open>
  Claim C3 asks that the cleanup returned for two levels set to \<open>blip\<close> be the shared stop
  action. For the second level \<open>prepareBlip\<close> finds the reader and returns the nil function,
  which replaces the cleanup of the first level (the branch that would keep it needs
  \<open>configured\<close>): \<open>Prepare\<close> succeeds with one running reader and returns nil, so that
  nothing stops the reader and calling what was returned panics.
\<close>

theorem Prepare_two_blip_levels_nil_cleanup:
  "snd (Prepare (target (Inr [])) NewLag
          (lag_plan [lag_level ''5s'' [(''writer'', ''blip'')], lag_level ''20s'' [(''writer'', ''blip'')]]))
     = Inr None
   \<and> map_option Running
        (lagReader (fst (Prepare (target (Inr [])) NewLag
          (lag_plan [lag_level ''5s'' [(''writer'', ''blip'')], lag_level ''20s'' [(''writer'', ''blip'')]]))))
     = Some True
   \<and> call_cleanup
        (None :: cleanup option)
        (fst (Prepare (target (Inr [])) NewLag
          (lag_plan [lag_level ''5s'' [(''writer'', ''blip'')], lag_level ''20s'' [(''writer'', ''blip'')]])))
     = Panics NilPointerDereference"
  by (simp add: prepare_simps call_cleanup_def)

subsection \<open>Auto-detection\<close>

text \<open>
  Claim C2, as stated, fails. The target of the example has no heartbeat table (its reader
  has no sample to give) and its performance-schema probe fails; for a plan whose level
  "5s" has the writer \<open>auto\<close>, \<open>Prepare\<close> returns no error but the stop action of a reader
  that it started, and the reader is running. Only \<open>Collect\<close> meets the missing table.
\<close>

theorem auto_detect_counterexample:
  "collectPFSv2 (target (Inl ''performance_schema is disabled'')) NewLag ''5s''
     = Inl ''performance_schema is disabled''
   \<and> snd (Prepare (target (Inl ''performance_schema is disabled'')) NewLag
            (lag_plan [lag_level ''5s'' [(''writer'', ''auto'')]]))
     = Inr (Some StopLagReader)
   \<and> map_option Running
        (lagReader (fst (Prepare (target (Inl ''performance_schema is disabled'')) NewLag
            (lag_plan [lag_level ''5s'' [(''writer'', ''auto'')]]))))
     = Some True
   \<and> Lag_Collect (target (Inl ''performance_schema is disabled''))
        (fst (Prepare (target (Inl ''performance_schema is disabled'')) NewLag
            (lag_plan [lag_level ''5s'' [(''writer'', ''auto'')]])))
        ''5s''
     = Returns (Inl (External ''Table 'blip.heartbeat' doesn't exist''))"
  by (simp add: prepare_simps Lag_Collect_def collectBlip_def writer_in_def)

text \<open>
  Claim C2, amended. \<open>prepareBlip\<close> has no failing path: it never looks at the heartbeat
  table. So for every plan with a level whose writer is \<open>auto\<close> or empty and for which the
  performance-schema probe fails, \<open>Prepare\<close> on a new collector does not return the
  auto-detect error, and when it succeeds that level is resolved to the heartbeat
  strategy and a background reader is running.
\<close>

theorem auto_probe_failure_resolves_to_heartbeat:
  assumes "distinct_keys (Levels plan)"
    and "(levelName, level) \<in> set (Levels plan)"
    and "map_of (Level.Collect level) DOMAIN = Some dm"
    and "str_at (Options dm) OPT_WRITER = ''auto'' \<or> str_at (Options dm) OPT_WRITER = []"
    and "\<forall>c. \<exists>msg. collectPFSv2 env c levelName = Inl msg"
    and "Prepare env NewLag plan = (c1, r)"
  shows "r \<noteq> Inl AutoDetectFailed
         \<and> (\<forall>cleanup. r = Inr cleanup \<longrightarrow>
               lagWriterIn c1 levelName = Some LAG_WRITER_BLIP
               \<and> (\<exists>reader. lagReader c1 = Some reader \<and> Running reader))"
proof -
  have run: "prepare_levels env plan (Levels plan) [] None NewLag = (c1, r)"
    using assms(6) by (simp add: Prepare_def)
  have "r \<noteq> Inl AutoDetectFailed"
    using prepare_levels_error[of env plan "Levels plan" None NewLag c1 AutoDetectFailed] run
    by auto
  moreover have "lagWriterIn c1 levelName = Some LAG_WRITER_BLIP
               \<and> (\<exists>reader. lagReader c1 = Some reader \<and> Running reader)"
    if "r = Inr cleanup" for cleanup
  proof -
    have ok: "prepare_levels env plan (Levels plan) [] None NewLag = (c1, Inr cleanup)"
      using run that by simp
    have "lagWriterIn c1 levelName = Some LAG_WRITER_BLIP \<and> lagReader c1 \<noteq> None"
      using prepare_levels_auto[OF _ assms(2,3,4,5) ok] assms(1) by (simp add: distinct_keys_def)
    moreover have "readers_running c1"
      using prepare_levels_running[OF ok readers_running_NewLag] .
    ultimately show ?thesis by (auto simp: readers_running_def)
  qed
  ultimately show ?thesis by blast
qed

theorem auto_probe_failure_resolves_to_heartbeat_witness:
  "lagWriterIn (fst (Prepare (target (Inl ''performance_schema is disabled'')) NewLag
                  (lag_plan [lag_level ''5s'' []]))) ''5s'' = Some LAG_WRITER_BLIP
   \<and> (\<exists>reader. lagReader (fst (Prepare (target (Inl ''performance_schema is disabled'')) NewLag
                  (lag_plan [lag_level ''5s'' []]))) = Some reader \<and> Running reader)"
proof -
  let ?env = "target (Inl ''performance_schema is disabled'')"
  let ?plan = "lag_plan [lag_level ''5s'' []]"
  have h1: "distinct_keys (Levels ?plan)"
    by (simp add: distinct_keys_def lag_plan_def lag_level_def)
  have h2: "lag_level ''5s'' [] \<in> set (Levels ?plan)"
    by (simp add: lag_plan_def)
  have h3: "map_of (Level.Collect (snd (lag_level ''5s'' []))) DOMAIN
             = Some \<lparr>Domain.Name = ''repl.lag'', Options = [], Metrics = []\<rparr>"
    by (simp add: lag_level_def DOMAIN_def)
  have h4: "str_at (Options \<lparr>Domain.Name = ''repl.lag'', Options = [], Metrics = []\<rparr>) OPT_WRITER = ''auto''
           \<or> str_at (Options \<lparr>Domain.Name = ''repl.lag'', Options = [], Metrics = []\<rparr>) OPT_WRITER = []"
    by (simp add: str_at_def)
  have h5: "\<forall>c. \<exists>msg. collectPFSv2 ?env c ''5s'' = Inl msg"
    by (simp add: target_def)
  obtain c1 r where h6: "Prepare ?env NewLag ?plan = (c1, r)"
    by (cases "Prepare ?env NewLag ?plan")
  have r: "r = Inr (Some StopLagReader)"
    using h6 by (simp add: prepare_simps)
  have h2m: "(''5s'', snd (lag_level ''5s'' [])) \<in> set (Levels ?plan)"
    using h2 by (simp add: lag_level_def)
  show ?thesis
    using auto_probe_failure_resolves_to_heartbeat[OF h1 h2m h3 h4 h5 h6] r h6 by simp
qed

subsection \<open>Drop-policy flags\<close>




subsection \<open>The replica check is shared\<close>



subsection \<open>Collecting\<close>







section \<open>Properties of the interpolation\<close>

subsection \<open>Association lists\<close>

lemma keys_upd_at [simp]: "map fst (upd_at k g m) = map fst m"
  by (induction m) (auto simp: upd_at_def)

lemma keys_map_values [simp]: "map fst (map_values g m) = map fst m"
  by (induction m) (auto simp: map_values_def)

lemma upd_at_absent: "k \<notin> fst ` set m \<Longrightarrow> upd_at k g m = m"
  by (induction m) (auto simp: upd_at_def)

lemma upd_at_upd_at: "upd_at k g (upd_at k h m) = upd_at k (g \<circ> h) m"
  by (induction m) (auto simp: upd_at_def)

lemma map_of_upd_at:
  "map_of (upd_at k g m) k' = (if k' = k then map_option g (map_of m k) else map_of m k')"
  by (induction m) (auto simp: upd_at_def)

lemma upd_at_cong:
  "distinct (map fst m) \<Longrightarrow> map_of m k = Some x \<Longrightarrow> g x = h x \<Longrightarrow> upd_at k g m = upd_at k h m"
proof (induction m)
  case Nil
  then show ?case by (simp add: upd_at_def)
next
  case (Cons a m)
  obtain k' y where a: "a = (k', y)" by (cases a)
  show ?case
  proof (cases "k' = k")
    case True
    then have "y = x" using Cons.prems(2) by (simp add: a)
    moreover have "k \<notin> fst ` set m" using Cons.prems(1) True by (simp add: a)
    ultimately show ?thesis
      using True Cons.prems(3) upd_at_absent[of k m g] upd_at_absent[of k m h]
      by (simp add: a upd_at_def)
  next
    case False
    then have "upd_at k g m = upd_at k h m"
      using Cons by (simp add: a)
    then show ?thesis using False by (simp add: a upd_at_def)
  qed
qed

lemma fold_upd_at:
  "distinct ks \<Longrightarrow>
   fold (\<lambda>k. upd_at k g) ks m = map (\<lambda>(k, x). (k, if k \<in> set ks then g x else x)) m"
proof (induction ks arbitrary: m)
  case Nil
  then show ?case by simp
next
  case (Cons k ks)
  then have "fold (\<lambda>k. upd_at k g) ks (upd_at k g m)
               = map (\<lambda>(k', x). (k', if k' \<in> set ks then g x else x)) (upd_at k g m)"
    by simp
  also have "\<dots> = map (\<lambda>(k', x). (k', if k' \<in> set (k # ks) then g x else x)) m"
    using Cons.prems by (auto simp: upd_at_def)
  finally show ?case by simp
qed

lemma fold_upd_at_all:
  "distinct (map fst m) \<Longrightarrow> fold (\<lambda>k. upd_at k g) (map fst m) m = map_values g m"
  by (simp add: fold_upd_at map_values_def) (auto intro!: map_cong simp: rev_image_eqI)

lemma update_is_upd_at:
  "distinct (map fst m) \<Longrightarrow> k \<in> fst ` set m \<Longrightarrow> AList.update k v m = upd_at k (\<lambda>_. v) m"
proof (induction m)
  case Nil
  then show ?case by simp
next
  case (Cons a m)
  obtain k' y where a: "a = (k', y)" by (cases a)
  show ?case
  proof (cases "k' = k")
    case True
    then have "k \<notin> fst ` set m" using Cons.prems(1) by (simp add: a)
    then have "upd_at k (\<lambda>_. v) m = m" by (rule upd_at_absent)
    then show ?thesis using True by (simp add: a upd_at_def)
  next
    case False
    then have "AList.update k v m = upd_at k (\<lambda>_. v) m"
      using Cons by (auto simp: a)
    then show ?thesis using False by (simp add: a upd_at_def)
  qed
qed

lemma fold_update_options:
  assumes "distinct (map fst os)"
  shows "fold (\<lambda>k m. AList.update k (f (str_at m k)) m) (map fst os) os = map_values f os"
proof -
  have step: "AList.update k (f (str_at m k)) m = upd_at k f m"
    if d: "distinct (map fst m)" and k: "k \<in> fst ` set m" for k m
  proof -
    obtain x where x: "map_of m k = Some x"
      using k by (metis domIff dom_map_of_conv_image_fst not_Some_eq)
    have "upd_at k (\<lambda>_. f (str_at m k)) m = upd_at k f m"
      by (rule upd_at_cong[OF d x]) (simp add: str_at_def x)
    then show ?thesis using update_is_upd_at[OF d k] by simp
  qed
  have "fold (\<lambda>k m. AList.update k (f (str_at m k)) m) ks m = fold (\<lambda>k. upd_at k f) ks m"
    if "distinct (map fst m)" "set ks \<subseteq> fst ` set m" for ks m
    using that
  proof (induction ks arbitrary: m)
    case Nil
    then show ?case by simp
  next
    case (Cons k ks)
    have s: "AList.update k (f (str_at m k)) m = upd_at k f m"
      using step Cons.prems by simp
    have "distinct (map fst (upd_at k f m))" "set ks \<subseteq> fst ` set (upd_at k f m)"
      using Cons.prems by (simp_all flip: set_map)
    from Cons.IH[OF this] show ?case by (simp add: s)
  qed
  from this[OF assms, of "map fst os"] show ?thesis
    using fold_upd_at_all[OF assms] by simp
qed

subsection \<open>The three loops\<close>

lemma set_option_mod:
  "set_option levelName domainName k v p
     = mod_level levelName (mod_domain domainName (with_options (AList.update k v))) p"
  by (simp add: set_option_def mod_level_def mod_domain_def with_options_def upd_at_def
        cong: if_cong)

lemma mod_level_mod_level:
  "mod_level lev H2 (mod_level lev H1 p) = mod_level lev (\<lambda>l. H2 (H1 l)) p"
  by (simp add: mod_level_def upd_at_upd_at comp_def)

lemma mod_domain_mod_domain:
  "mod_domain dmn G2 (mod_domain dmn G1 l) = mod_domain dmn (\<lambda>d. G2 (G1 d)) l"
  by (simp add: mod_domain_def upd_at_upd_at comp_def)

lemma with_options_with_options:
  "with_options F2 (with_options F1 d) = with_options (\<lambda>os. F2 (F1 os)) d"
  by (simp add: with_options_def)

lemma upd_at_id: "upd_at k (\<lambda>x. x) m = m"
  by (induction m) (auto simp: upd_at_def)

lemma upd_at_same:
  "distinct (map fst m) \<Longrightarrow> map_of m k = Some x \<Longrightarrow> g x = x \<Longrightarrow> upd_at k g m = m"
  using upd_at_cong[of m k x g "\<lambda>x. x"] by (simp add: upd_at_def)

lemma wf_plan_level:
  "wf_plan p \<Longrightarrow> map_of (Levels p) lev = Some l \<Longrightarrow> wf_level l"
  by (auto simp: wf_plan_def list_all_iff dest!: map_of_SomeD)

lemma wf_level_domain:
  "wf_level l \<Longrightarrow> map_of (Collect l) dmn = Some d \<Longrightarrow> wf_domain d"
  by (auto simp: wf_level_def list_all_iff dest!: map_of_SomeD)

lemma options_at_mod:
  assumes "map_of (Levels p) lev = Some l" and "map_of (Collect l) dmn = Some d"
  shows "options_at (mod_level lev (mod_domain dmn (with_options F)) p) lev dmn = F (Options d)"
  using assms
  by (simp add: options_at_def collect_at_def mod_level_def mod_domain_def with_options_def
        map_of_upd_at)

lemma options_at_present:
  assumes "map_of (Levels p) lev = Some l" and "map_of (Collect l) dmn = Some d"
  shows "options_at p lev dmn = Options d"
  using assms by (simp add: options_at_def collect_at_def)

lemma mod_options_const:
  assumes "wf_plan p" and "map_of (Levels p) lev = Some l" and "map_of (Collect l) dmn = Some d"
  shows "mod_level lev (mod_domain dmn (with_options F)) p
           = mod_level lev (mod_domain dmn (with_options (\<lambda>_. F (Options d)))) p"
proof -
  have dl: "distinct (map fst (Levels p))"
    using assms(1) by (simp add: wf_plan_def distinct_keys_def)
  have dd: "distinct (map fst (Collect l))"
    using wf_plan_level[OF assms(1,2)] by (simp add: wf_level_def distinct_keys_def)
  have "upd_at dmn (with_options F) (Collect l)
          = upd_at dmn (with_options (\<lambda>_. F (Options d))) (Collect l)"
    by (rule upd_at_cong[OF dd assms(3)]) (simp add: with_options_def)
  then have "mod_domain dmn (with_options F) l = mod_domain dmn (with_options (\<lambda>_. F (Options d))) l"
    by (simp add: mod_domain_def)
  from upd_at_cong[where g = "mod_domain dmn (with_options F)"
        and h = "mod_domain dmn (with_options (\<lambda>_. F (Options d)))", OF dl assms(2) this]
  show ?thesis
    by (simp add: mod_level_def)
qed

lemma interpolate_options_eq:
  assumes "wf_plan p"
  shows "interpolate_options f lev dmn p
           = mod_level lev (mod_domain dmn (with_options (map_values f))) p"
proof (cases "\<exists>l d. map_of (Levels p) lev = Some l \<and> map_of (Collect l) dmn = Some d")
  case True
  then obtain l d where l: "map_of (Levels p) lev = Some l" and d: "map_of (Collect l) dmn = Some d"
    by blast
  let ?put = "\<lambda>os. mod_level lev (mod_domain dmn (with_options (\<lambda>_. os))) p"
  let ?step = "\<lambda>k q. set_option lev dmn k (f (str_at (options_at q lev dmn) k)) q"
  let ?astep = "\<lambda>k m. AList.update k (f (str_at m k)) m"
  have step: "?step k (?put os) = ?put (?astep k os)" for k os
    by (simp add: set_option_mod options_at_mod[OF l d] mod_level_mod_level
          mod_domain_mod_domain with_options_with_options)
  have loop: "fold ?step ks (?put os) = ?put (fold ?astep ks os)" for ks os
  proof (induction ks arbitrary: os)
    case Nil
    then show ?case by simp
  next
    case (Cons k ks)
    have "fold ?step (k # ks) (?put os) = fold ?step ks (?step k (?put os))" by simp
    also have "\<dots> = fold ?step ks (?put (?astep k os))" by (simp only: step)
    also have "\<dots> = ?put (fold ?astep ks (?astep k os))" by (rule Cons.IH)
    finally show ?case by simp
  qed
  have dopt: "distinct (map fst (Options d))"
    using wf_level_domain[OF wf_plan_level[OF assms l] d] by (simp add: wf_domain_def distinct_keys_def)
  have p: "?put (Options d) = p"
  proof -
    have "mod_level lev (mod_domain dmn (with_options (\<lambda>os. os))) p = ?put (Options d)"
      by (rule mod_options_const[OF assms l d])
    moreover have "mod_level lev (mod_domain dmn (with_options (\<lambda>os. os))) p = p"
    proof -
      have "with_options (\<lambda>os. os) = (\<lambda>d. d)" by (rule ext) (simp add: with_options_def)
      then have "mod_domain dmn (with_options (\<lambda>os. os)) = (\<lambda>l. l)"
        by (intro ext) (simp add: mod_domain_def upd_at_id)
      then show ?thesis by (simp add: mod_level_def upd_at_id)
    qed
    ultimately show ?thesis by simp
  qed
  have "interpolate_options f lev dmn p = fold ?step (map fst (Options d)) (?put (Options d))"
    by (simp add: interpolate_options_def options_at_present[OF l d] p)
  also have "\<dots> = ?put (fold ?astep (map fst (Options d)) (Options d))" by (rule loop)
  also have "\<dots> = ?put (map_values f (Options d))" by (simp only: fold_update_options[OF dopt])
  also have "\<dots> = mod_level lev (mod_domain dmn (with_options (map_values f))) p"
    by (rule mod_options_const[OF assms l d, symmetric])
  finally show ?thesis .
next
  case False
  have dl: "distinct (map fst (Levels p))"
    using assms by (simp add: wf_plan_def distinct_keys_def)
  have none: "options_at p lev dmn = []"
    using False by (auto simp: options_at_def collect_at_def split: option.splits)
  have "mod_level lev (mod_domain dmn (with_options (map_values f))) p = p"
  proof (cases "map_of (Levels p) lev")
    case None
    then have "lev \<notin> fst ` set (Levels p)" by (simp add: map_of_eq_None_iff)
    then show ?thesis by (simp add: mod_level_def upd_at_absent)
  next
    case (Some l)
    then have "map_of (Collect l) dmn = None" using False by (cases "map_of (Collect l) dmn") auto
    then have "dmn \<notin> fst ` set (Collect l)" by (simp add: map_of_eq_None_iff)
    then have "mod_domain dmn (with_options (map_values f)) l = l"
      by (simp add: mod_domain_def upd_at_absent)
    from upd_at_same[where g = "mod_domain dmn (with_options (map_values f))", OF dl Some this]
    show ?thesis by (simp add: mod_level_def)
  qed
  then show ?thesis by (simp add: interpolate_options_def none)
qed

lemma rewrite_every_option_eq:
  "rewrite_every_option f p = p\<lparr>Levels := map_values (rewrite_level f) (Levels p)\<rparr>"
  by (simp add: rewrite_every_option_def rewrite_level_def rewrite_domain_def with_options_def
        map_values_def)

lemma list_all_upd_at:
  "list_all (\<lambda>(k, x). P x) m \<Longrightarrow> (\<And>x. P x \<Longrightarrow> P (g x)) \<Longrightarrow> list_all (\<lambda>(k, x). P x) (upd_at k' g m)"
  by (induction m) (auto simp: upd_at_def split: if_splits)

lemma list_all_map_values:
  "list_all (\<lambda>(k, x). P x) m \<Longrightarrow> (\<And>x. P x \<Longrightarrow> P (g x)) \<Longrightarrow> list_all (\<lambda>(k, x). P x) (map_values g m)"
  by (induction m) (auto simp: map_values_def)

lemma wf_rewrite_domain: "wf_domain d \<Longrightarrow> wf_domain (rewrite_domain f d)"
  by (simp add: wf_domain_def rewrite_domain_def with_options_def distinct_keys_def)

lemma wf_mod_domain:
  "wf_level l \<Longrightarrow> wf_level (mod_domain dmn (rewrite_domain f) l)"
  by (auto simp: wf_level_def mod_domain_def distinct_keys_def
      intro: list_all_upd_at wf_rewrite_domain)

lemma wf_rewrite_level: "wf_level l \<Longrightarrow> wf_level (rewrite_level f l)"
  by (auto simp: wf_level_def rewrite_level_def distinct_keys_def
      intro: list_all_map_values wf_rewrite_domain)

lemma wf_mod_level:
  "wf_plan p \<Longrightarrow> (\<And>l. wf_level l \<Longrightarrow> wf_level (H l)) \<Longrightarrow> wf_plan (mod_level lev H p)"
  by (auto simp: wf_plan_def mod_level_def distinct_keys_def intro: list_all_upd_at)

lemma wf_rewrite_every_option: "wf_plan p \<Longrightarrow> wf_plan (rewrite_every_option f p)"
  by (auto simp: rewrite_every_option_eq wf_plan_def distinct_keys_def
      intro: list_all_map_values wf_rewrite_level)

lemma fold_cong_invariant:
  assumes "P x"
    and "\<And>k y. P y \<Longrightarrow> step k y = step' k y \<and> P (step' k y)"
  shows "fold step ks x = fold step' ks x \<and> P (fold step' ks x)"
  using assms(1)
proof (induction ks arbitrary: x)
  case Nil
  then show ?case by simp
next
  case (Cons k ks)
  from assms(2)[OF Cons.prems] have "step k x = step' k x" "P (step' k x)" by simp_all
  with Cons.IH[of "step' k x"] show ?case by simp
qed

lemma fold_mod_level:
  "fold (\<lambda>k q. mod_level lev (H k) q) ks p = mod_level lev (\<lambda>l. fold H ks l) p"
proof (induction ks arbitrary: p)
  case Nil
  then show ?case by (simp add: mod_level_def upd_at_id)
next
  case (Cons k ks)
  then show ?case by (simp add: mod_level_mod_level)
qed

lemma fold_mod_domain:
  "fold (\<lambda>k. mod_domain k G) ks l = l\<lparr>Collect := fold (\<lambda>k. upd_at k G) ks (Collect l)\<rparr>"
  by (induction ks arbitrary: l) (simp_all add: mod_domain_def)

lemma interpolate_level_eq:
  assumes "wf_plan p"
  shows "interpolate_level f lev p = mod_level lev (rewrite_level f) p"
proof -
  let ?dmns = "map fst (collect_at p lev)"
  have "fold (\<lambda>dmn q. interpolate_options f lev dmn q) ?dmns p
          = fold (\<lambda>dmn q. mod_level lev (mod_domain dmn (rewrite_domain f)) q) ?dmns p"
    using fold_cong_invariant[where P = wf_plan and x = p
        and step = "\<lambda>dmn q. interpolate_options f lev dmn q"
        and step' = "\<lambda>dmn q. mod_level lev (mod_domain dmn (rewrite_domain f)) q"
        and ks = ?dmns]
      assms
    by (simp add: interpolate_options_eq rewrite_domain_def[symmetric] wf_mod_level wf_mod_domain)
  then have loop: "interpolate_level f lev p
          = mod_level lev (\<lambda>l. fold (\<lambda>dmn. mod_domain dmn (rewrite_domain f)) ?dmns l) p"
    by (simp add: interpolate_level_def fold_mod_level)
  have dl: "distinct (map fst (Levels p))"
    using assms by (simp add: wf_plan_def distinct_keys_def)
  show ?thesis
  proof (cases "map_of (Levels p) lev")
    case None
    then have "lev \<notin> fst ` set (Levels p)" by (simp add: map_of_eq_None_iff)
    then show ?thesis by (simp add: loop mod_level_def upd_at_absent)
  next
    case (Some l)
    have dd: "distinct (map fst (Collect l))"
      using wf_plan_level[OF assms Some] by (simp add: wf_level_def distinct_keys_def)
    have keys: "?dmns = map fst (Collect l)"
      by (simp add: collect_at_def Some)
    have "fold (\<lambda>dmn. mod_domain dmn (rewrite_domain f)) ?dmns l = rewrite_level f l"
      by (simp add: keys fold_mod_domain fold_upd_at_all[OF dd] rewrite_level_def)
    from upd_at_cong[where g = "\<lambda>l. fold (\<lambda>dmn. mod_domain dmn (rewrite_domain f)) ?dmns l"
        and h = "rewrite_level f", OF dl Some this]
    show ?thesis by (simp add: loop mod_level_def)
  qed
qed

lemma fold_mod_levels:
  "fold (\<lambda>k q. mod_level k H q) ks p = p\<lparr>Levels := fold (\<lambda>k. upd_at k H) ks (Levels p)\<rparr>"
  by (induction ks arbitrary: p) (simp_all add: mod_level_def)

lemma interpolate_all_levels:
  assumes "wf_plan p"
  shows "fold (\<lambda>levelName q. interpolate_level f levelName q) (map fst (Levels p)) p
           = rewrite_every_option f p"
proof -
  let ?levs = "map fst (Levels p)"
  have "fold (\<lambda>levelName q. interpolate_level f levelName q) ?levs p
          = fold (\<lambda>levelName q. mod_level levelName (rewrite_level f) q) ?levs p"
    using fold_cong_invariant[where P = wf_plan and x = p
        and step = "\<lambda>levelName q. interpolate_level f levelName q"
        and step' = "\<lambda>levelName q. mod_level levelName (rewrite_level f) q"
        and ks = ?levs]
      assms
    by (simp add: interpolate_level_eq wf_mod_level wf_rewrite_level)
  moreover have "distinct (map fst (Levels p))"
    using assms by (simp add: wf_plan_def distinct_keys_def)
  ultimately show ?thesis
    by (simp add: fold_mod_levels fold_upd_at_all rewrite_every_option_eq)
qed

lemma rewrite_every_option_twice:
  "rewrite_every_option g (rewrite_every_option f p) = rewrite_every_option (g \<circ> f) p"
  by (simp add: rewrite_every_option_def comp_def case_prod_beta)

lemma map_of_map_values: "map_of (map_values g m) k = map_option g (map_of m k)"
  by (induction m) (auto simp: map_values_def)

text \<open>
  Claim C7. For every plan, \<open>InterpolateEnvVars\<close> followed by \<open>InterpolateMonitor\<close> gives the
  plan in which every option value of every domain of every level is replaced by
  \<open>interpolateMon (interpolateEnv v)\<close>, each function applied once to it, and in which
  nothing else differs: the name of the plan, the names and the order of the levels,
  their \<open>Name\<close> and \<open>Freq\<close>, the names of the domains, their \<open>Name\<close> and \<open>Metrics\<close>, and
  the keys of the options are those of the plan. The plan is a plan of Go maps: no key
  twice.
\<close>

theorem interpolation_rewrites_every_option_once:
  assumes "wf_plan p"
  shows "InterpolateMonitor interpolateMon (InterpolateEnvVars interpolateEnv p)
           = rewrite_every_option (interpolateMon \<circ> interpolateEnv) p
         \<and> Plan.Name (InterpolateMonitor interpolateMon (InterpolateEnvVars interpolateEnv p))
             = Plan.Name p
         \<and> map fst (Levels (InterpolateMonitor interpolateMon (InterpolateEnvVars interpolateEnv p)))
             = map fst (Levels p)
         \<and> (\<forall>levelName l. map_of (Levels p) levelName = Some l \<longrightarrow>
              (\<exists>l'. map_of (Levels (InterpolateMonitor interpolateMon (InterpolateEnvVars interpolateEnv p)))
                       levelName = Some l'
                 \<and> Level.Name l' = Level.Name l \<and> Freq l' = Freq l
                 \<and> map fst (Level.Collect l') = map fst (Level.Collect l)
                 \<and> (\<forall>domainName d. map_of (Level.Collect l) domainName = Some d \<longrightarrow>
                      (\<exists>d'. map_of (Level.Collect l') domainName = Some d'
                         \<and> Domain.Name d' = Domain.Name d \<and> Metrics d' = Metrics d
                         \<and> map fst (Options d') = map fst (Options d)
                         \<and> (\<forall>k v. map_of (Options d) k = Some v \<longrightarrow>
                               map_of (Options d') k = Some (interpolateMon (interpolateEnv v)))))))"
proof -
  let ?h = "interpolateMon \<circ> interpolateEnv"
  have env: "InterpolateEnvVars interpolateEnv p = rewrite_every_option interpolateEnv p"
    unfolding InterpolateEnvVars_def by (rule interpolate_all_levels[OF assms])
  have "InterpolateMonitor interpolateMon (rewrite_every_option interpolateEnv p)
          = rewrite_every_option interpolateMon (rewrite_every_option interpolateEnv p)"
    unfolding InterpolateMonitor_def
    by (rule interpolate_all_levels[OF wf_rewrite_every_option[OF assms]])
  then have eq: "InterpolateMonitor interpolateMon (InterpolateEnvVars interpolateEnv p)
          = rewrite_every_option ?h p"
    by (simp add: env rewrite_every_option_twice)
  have frame: "Plan.Name (rewrite_every_option ?h p) = Plan.Name p"
    "map fst (Levels (rewrite_every_option ?h p)) = map fst (Levels p)"
    by (simp_all add: rewrite_every_option_eq)
  have levels: "\<exists>l'. map_of (Levels (rewrite_every_option ?h p)) levelName = Some l'
                 \<and> Level.Name l' = Level.Name l \<and> Freq l' = Freq l
                 \<and> map fst (Level.Collect l') = map fst (Level.Collect l)
                 \<and> (\<forall>domainName d. map_of (Level.Collect l) domainName = Some d \<longrightarrow>
                      (\<exists>d'. map_of (Level.Collect l') domainName = Some d'
                         \<and> Domain.Name d' = Domain.Name d \<and> Metrics d' = Metrics d
                         \<and> map fst (Options d') = map fst (Options d)
                         \<and> (\<forall>k v. map_of (Options d) k = Some v \<longrightarrow>
                               map_of (Options d') k = Some (interpolateMon (interpolateEnv v)))))"
    if "map_of (Levels p) levelName = Some l" for levelName l
    using that
    by (simp add: rewrite_every_option_eq map_of_map_values rewrite_level_def rewrite_domain_def
          with_options_def)
  show ?thesis
    unfolding eq using frame levels by blast
qed

theorem interpolation_rewrites_every_option_once_witness:
  "InterpolateMonitor (\<lambda>v. if v = ''%{monitor.id}'' then ''m1'' else v)
     (InterpolateEnvVars (\<lambda>v. if v = ''${TABLE}'' then ''%{monitor.id}'' else v)
        \<lparr>Plan.Name = ''plan'',
         Levels =
           [(''5s'', \<lparr>Level.Name = ''5s'', Freq = ''5s'',
               Collect =
                 [(''repl.lag'', \<lparr>Domain.Name = ''repl.lag'',
                     Options = [(''writer'', ''blip''), (''table'', ''${TABLE}'')],
                     Metrics = [''current'']\<rparr>)]\<rparr>)],
         MonitorId = ''m1''\<rparr>)
   = \<lparr>Plan.Name = ''plan'',
      Levels =
        [(''5s'', \<lparr>Level.Name = ''5s'', Freq = ''5s'',
            Collect =
              [(''repl.lag'', \<lparr>Domain.Name = ''repl.lag'',
                  Options = [(''writer'', ''blip''), (''table'', ''m1'')],
                  Metrics = [''current'']\<rparr>)]\<rparr>)],
      MonitorId = ''m1''\<rparr>"
proof -
  let ?p = "\<lparr>Plan.Name = ''plan'',
         Levels =
           [(''5s'', \<lparr>Level.Name = ''5s'', Freq = ''5s'',
               Collect =
                 [(''repl.lag'', \<lparr>Domain.Name = ''repl.lag'',
                     Options = [(''writer'', ''blip''), (''table'', ''${TABLE}'')],
                     Metrics = [''current'']\<rparr>)]\<rparr>)],
         MonitorId = ''m1''\<rparr>"
  have wf: "wf_plan ?p"
    by (simp add: wf_plan_def wf_level_def wf_domain_def distinct_keys_def)
  show ?thesis
    using interpolation_rewrites_every_option_once[OF wf,
        of "\<lambda>v. if v = ''%{monitor.id}'' then ''m1'' else v"
           "\<lambda>v. if v = ''${TABLE}'' then ''%{monitor.id}'' else v"]
    by (simp add: rewrite_every_option_def)
qed

section \<open>Properties of the lag query\<close>

lemma sql_MIN_member: "xs \<noteq> [] \<Longrightarrow> \<exists>m. sql_MIN xs = Some m \<and> m \<in> set xs"
proof (induction xs)
  case Nil
  then show ?case by simp
next
  case (Cons x xs)
  show ?case
  proof (cases "xs = []")
    case True
    then show ?thesis by simp
  next
    case False
    with Cons.IH obtain m where "sql_MIN xs = Some m" "m \<in> set xs" by blast
    then show ?thesis by (auto simp: min_def)
  qed
qed

lemma TIMESTAMPDIFF_MINUTE_two: "120000000 \<le> b - a \<Longrightarrow> 1 < TIMESTAMPDIFF_MINUTE a b"
proof -
  assume h: "120000000 \<le> b - a"
  then have "2 \<le> (b - a) div 60000000" by simp
  moreover have "sgn (b - a) = 1" "\<bar>b - a\<bar> = b - a" using h by simp_all
  ultimately show ?thesis by (simp add: TIMESTAMPDIFF_MINUTE_def)
qed

text \<open>
  Claim C9, as stated, fails. The last queued transaction is 90 seconds old, older than
  one minute; \<open>TIMESTAMPDIFF(MINUTE, ...)\<close> is 1, which is not above 1, the channel counts
  as active, and the query reports the applier latency of 5 milliseconds.
\<close>

theorem idle_channel_counterexample:
  "NOW 200000000
     - LAST_QUEUED_TRANSACTION_ORIGINAL_COMMIT_TIMESTAMP
         \<lparr>connection_status.CHANNEL_NAME = [], LAST_QUEUED_TRANSACTION = ''3e11fa47:1-5'',
          LAST_QUEUED_TRANSACTION_ORIGINAL_COMMIT_TIMESTAMP = 110000000\<rparr>
     = 90000000
   \<and> lagMs (\<lambda>a b. if a = b then [] else a) 200000000
        [\<lparr>applier_status_by_worker.CHANNEL_NAME = [], LAST_APPLIED_TRANSACTION = ''3e11fa47:1-5'',
          LAST_APPLIED_TRANSACTION_ORIGINAL_COMMIT_TIMESTAMP = 110000000,
          LAST_APPLIED_TRANSACTION_IMMEDIATE_COMMIT_TIMESTAMP = 110000000,
          LAST_APPLIED_TRANSACTION_END_APPLY_TIMESTAMP = 110005000\<rparr>]
        [\<lparr>connection_status.CHANNEL_NAME = [], LAST_QUEUED_TRANSACTION = ''3e11fa47:1-5'',
          LAST_QUEUED_TRANSACTION_ORIGINAL_COMMIT_TIMESTAMP = 110000000\<rparr>]
     = [Some 5]"
  by (simp add: lagMs_def queue_status_def queue_latency_ms_def worker_join_status_def
        applier_latency_def TIMESTAMPDIFF_MINUTE_def TIMESTAMPDIFF_MICROSECOND_def NOW_def
        sql_GREATEST_def)

text \<open>
  Claim C9, amended. Whenever the most recently queued transaction is at least two whole
  minutes old, that is every row of the join is, so that the minimum of
  \<open>TIMESTAMPDIFF(MINUTE, ...)\<close> is above 1, the query reports exactly 0, whatever the
  applier and queue latencies.
\<close>

theorem idle_channel_reports_zero:
  assumes "worker_join_status workers statuses \<noteq> []"
    and "\<forall>(w, s) \<in> set (worker_join_status workers statuses).
           120000000 \<le> NOW t - LAST_QUEUED_TRANSACTION_ORIGINAL_COMMIT_TIMESTAMP s"
  shows "lagMs GTID_SUBTRACT t workers statuses = [Some 0]"
proof -
  let ?rows = "worker_join_status workers statuses"
  let ?ages = "map (\<lambda>(w, s). TIMESTAMPDIFF_MINUTE
                     (LAST_QUEUED_TRANSACTION_ORIGINAL_COMMIT_TIMESTAMP s) (NOW t)) ?rows"
  have "?ages \<noteq> []" using assms(1) by simp
  then obtain m where m: "sql_MIN ?ages = Some m" "m \<in> set ?ages"
    using sql_MIN_member by blast
  then have "1 < m"
    using assms(2) by (auto dest!: TIMESTAMPDIFF_MINUTE_two)
  then have idle: "queue_status t ?rows = ''IDLE''"
    using m(1) by (simp add: queue_status_def)
  have "workers \<noteq> []"
    using assms(1) by (auto simp: worker_join_status_def)
  then obtain w ws where "workers = w # ws" by (cases workers) auto
  then show ?thesis
    using idle by (simp add: lagMs_def applier_latency_def)
qed

theorem idle_channel_reports_zero_witness:
  "lagMs (\<lambda>a b. if a = b then [] else a) 300000000
        [\<lparr>applier_status_by_worker.CHANNEL_NAME = [], LAST_APPLIED_TRANSACTION = ''3e11fa47:1-5'',
          LAST_APPLIED_TRANSACTION_ORIGINAL_COMMIT_TIMESTAMP = 110000000,
          LAST_APPLIED_TRANSACTION_IMMEDIATE_COMMIT_TIMESTAMP = 110000000,
          LAST_APPLIED_TRANSACTION_END_APPLY_TIMESTAMP = 110005000\<rparr>]
        [\<lparr>connection_status.CHANNEL_NAME = [], LAST_QUEUED_TRANSACTION = ''3e11fa47:1-5'',
          LAST_QUEUED_TRANSACTION_ORIGINAL_COMMIT_TIMESTAMP = 110000000\<rparr>]
     = [Some 0]"
proof -
  let ?w = "\<lparr>applier_status_by_worker.CHANNEL_NAME = [], LAST_APPLIED_TRANSACTION = ''3e11fa47:1-5'',
          LAST_APPLIED_TRANSACTION_ORIGINAL_COMMIT_TIMESTAMP = 110000000,
          LAST_APPLIED_TRANSACTION_IMMEDIATE_COMMIT_TIMESTAMP = 110000000,
          LAST_APPLIED_TRANSACTION_END_APPLY_TIMESTAMP = 110005000\<rparr>"
  let ?s = "\<lparr>connection_status.CHANNEL_NAME = [], LAST_QUEUED_TRANSACTION = ''3e11fa47:1-5'',
          LAST_QUEUED_TRANSACTION_ORIGINAL_COMMIT_TIMESTAMP = 110000000\<rparr>"
  have j: "worker_join_status [?w] [?s] = [(?w, ?s)]"
    by (simp add: worker_join_status_def)
  have h1: "worker_join_status [?w] [?s] \<noteq> []"
    by (simp add: j)
  have h2: "\<forall>(w, s) \<in> set (worker_join_status [?w] [?s]).
              120000000 \<le> NOW 300000000 - LAST_QUEUED_TRANSACTION_ORIGINAL_COMMIT_TIMESTAMP s"
    by (simp add: j NOW_def)
  show ?thesis
    using idle_channel_reports_zero[OF h1 h2] .
qed

end
